theory Spec2Isabelle
  imports
    Main
    "HOL-Library.Sublist"
    "HOL-Library.Char_ord"
    "HOL-Library.List_Lexorder"
    "HOL-Library.Product_Lexorder"
    "HOL-Library.Multiset"
begin

section \<open>GST sales report: month resolution and platform summaries\<close>

text \<open>
  A shallow embedding of \<^verbatim>\<open>app.py\<close>: the function \<^verbatim>\<open>extract_month\<close> (the
  month resolver) and the body of the platform summary loop (the aggregator).

  Modelling decisions, all of them about the libraries the script calls:
  \<^item> a DataFrame is a list of column names and a list of rows; a cell is missing (NaN),
    a number or a string. Numbers are integers with exact arithmetic: floating-point
    rounding is outside this model;
  \<^item> strings are ASCII byte strings, \<^verbatim>\<open>str.upper\<close> maps \<^verbatim>\<open>a..z\<close> to \<^verbatim>\<open>A..Z\<close>;
  \<^item> every exception of the source is a value \<open>Inl e\<close>; a \<^verbatim>\<open>try/except\<close> is a case
    distinction on the sum;
  \<^item> \<^verbatim>\<open>pd.to_datetime(..., errors='coerce')\<close> accepts a grammar of date strings that is
    not part of the repository: the month of the timestamp it produces for one cell
    (or nothing, for NaT) is a parameter of the model;
  \<^item> the default sort of \<^verbatim>\<open>sort_values\<close> is not stable: the sort is a parameter of the
    model too, and only a theorem about the ranking assumes that it sorts.
\<close>

subsection \<open>Data model\<close>

datatype py_error = IndexError | ValueError | TypeError

datatype cell = Missing | Num int | Str string

type_synonym row = "(string \<times> cell) list"

record ledger =
  columns :: "string list"
  rows :: "row list"

datatype platform = Amazon | Flipkart | Meesho

type_synonym month_result = "int option \<times> string option"

datatype month_of_year =
  January | February | March | April | May | June
  | July | August | September | October | November | December

type_synonym date_parser = "cell \<Rightarrow> month_of_year option"

fun is_num :: "cell \<Rightarrow> bool" where
  "is_num (Num n) = True"
| "is_num c = False"

fun is_str :: "cell \<Rightarrow> bool" where
  "is_str (Str s) = True"
| "is_str c = False"

fun is_missing :: "cell \<Rightarrow> bool" where
  "is_missing Missing = True"
| "is_missing c = False"

text \<open>\<^verbatim>\<open>col in df.columns\<close> and \<^verbatim>\<open>df[col]\<close>; a row without an entry for a column holds NaN there.\<close>

definition has_column :: "ledger \<Rightarrow> string \<Rightarrow> bool" where
  "has_column df c = (c \<in> set (columns df))"

definition cell_at :: "row \<Rightarrow> string \<Rightarrow> cell" where
  "cell_at r c = (case map_of r c of None \<Rightarrow> Missing | Some v \<Rightarrow> v)"

definition column :: "ledger \<Rightarrow> string \<Rightarrow> cell list" where
  "column df c = map (\<lambda>r. cell_at r c) (rows df)"

subsection \<open>Python built-ins\<close>

definition months :: "string list" where
  "months = [''JAN'', ''FEB'', ''MAR'', ''APR'', ''MAY'', ''JUN'',
             ''JUL'', ''AUG'', ''SEP'', ''OCT'', ''NOV'', ''DEC'']"

text \<open>List indexing: a negative index counts from the end, anything out of range raises.\<close>

definition list_index :: "'a list \<Rightarrow> int \<Rightarrow> py_error + 'a" where
  "list_index xs i =
     (if 0 \<le> i \<and> i < int (length xs) then Inr (xs ! nat i)
      else if i < 0 \<and> - int (length xs) \<le> i then Inr (xs ! nat (int (length xs) + i))
      else Inl IndexError)"

definition upper_char :: "char \<Rightarrow> char" where
  "upper_char c =
     (case map_of (zip ''abcdefghijklmnopqrstuvwxyz'' ''ABCDEFGHIJKLMNOPQRSTUVWXYZ'') c of
        None \<Rightarrow> c
      | Some u \<Rightarrow> u)"

definition upper :: "string \<Rightarrow> string" where
  "upper s = map upper_char s"

text \<open>\<^verbatim>\<open>m in s\<close> on strings: \<open>m\<close> occurs in \<open>s\<close> as a contiguous substring.\<close>

fun starts_with :: "string \<Rightarrow> string \<Rightarrow> bool" where
  "starts_with s [] = True"
| "starts_with [] (c # m) = False"
| "starts_with (d # s) (c # m) = (d = c \<and> starts_with s m)"

fun py_in :: "string \<Rightarrow> string \<Rightarrow> bool" where
  "py_in m [] = (m = [])"
| "py_in m (c # s) = (starts_with (c # s) m \<or> py_in m s)"

fun enumerate_from :: "int \<Rightarrow> 'a list \<Rightarrow> (int \<times> 'a) list" where
  "enumerate_from i [] = []"
| "enumerate_from i (x # xs) = (i, x) # enumerate_from (i + 1) xs"

text \<open>
  \<^verbatim>\<open>int(x)\<close>: a number is returned as it is; a string is stripped of surrounding
  whitespace and read as an optional sign followed by decimal digits, where single
  underscores may separate digits; anything else raises \<^verbatim>\<open>ValueError\<close>.
\<close>

definition is_space :: "char \<Rightarrow> bool" where
  "is_space c =
     (c \<in> set [CHR '' '', CHR 0x09, CHR 0x0A, CHR 0x0B, CHR 0x0C, CHR 0x0D,
               CHR 0x1C, CHR 0x1D, CHR 0x1E, CHR 0x1F])"

definition strip :: "string \<Rightarrow> string" where
  "strip s = rev (dropWhile is_space (rev (dropWhile is_space s)))"

definition digit_val :: "char \<Rightarrow> nat option" where
  "digit_val c = map_of (zip ''0123456789'' [0, 1, 2, 3, 4, 5, 6, 7, 8, 9]) c"

fun read_digits :: "nat \<Rightarrow> bool \<Rightarrow> string \<Rightarrow> nat option" where
  "read_digits acc after_digit [] = (if after_digit then Some acc else None)"
| "read_digits acc after_digit (c # cs) =
     (if c = CHR ''_'' then
        (if after_digit \<and> cs \<noteq> [] then read_digits acc False cs else None)
      else
        (case digit_val c of
           None \<Rightarrow> None
         | Some d \<Rightarrow> read_digits (10 * acc + d) True cs))"

definition int_of_str :: "string \<Rightarrow> py_error + int" where
  "int_of_str s =
     (case strip s of
        [] \<Rightarrow> Inl ValueError
      | c # cs \<Rightarrow>
          (if c = CHR ''-'' then
             (case read_digits 0 False cs of
                None \<Rightarrow> Inl ValueError | Some n \<Rightarrow> Inr (- int n))
           else if c = CHR ''+'' then
             (case read_digits 0 False cs of
                None \<Rightarrow> Inl ValueError | Some n \<Rightarrow> Inr (int n))
           else
             (case read_digits 0 False (c # cs) of
                None \<Rightarrow> Inl ValueError | Some n \<Rightarrow> Inr (int n))))"

fun py_int :: "cell \<Rightarrow> py_error + int" where
  "py_int (Num n) = Inr n"
| "py_int (Str s) = int_of_str s"
| "py_int Missing = Inl ValueError"

text \<open>\<^verbatim>\<open>str(x)\<close>, as \<^verbatim>\<open>astype(str)\<close> applies it to every cell.\<close>

fun str_of_nat :: "nat \<Rightarrow> string" where
  "str_of_nat n =
     (if n < 10 then [''0123456789'' ! n]
      else str_of_nat (n div 10) @ [''0123456789'' ! (n mod 10)])"

definition str_of_int :: "int \<Rightarrow> string" where
  "str_of_int i = (if i < 0 then CHR ''-'' # str_of_nat (nat (- i)) else str_of_nat (nat i))"

fun astype_str :: "cell \<Rightarrow> string" where
  "astype_str (Str s) = s"
| "astype_str (Num n) = str_of_int n"
| "astype_str Missing = ''nan''"

declare str_of_nat.simps [simp del]

subsection \<open>pandas\<close>

definition dropna :: "cell list \<Rightarrow> cell list" where
  "dropna xs = filter (\<lambda>c. \<not> is_missing c) xs"

text \<open>\<^verbatim>\<open>.iloc[0]\<close>: the first element, \<^verbatim>\<open>IndexError\<close> on an empty series.\<close>

definition iloc0 :: "'a list \<Rightarrow> py_error + 'a" where
  "iloc0 xs = (case xs of [] \<Rightarrow> Inl IndexError | x # rest \<Rightarrow> Inr x)"

text \<open>
  \<^verbatim>\<open>Series.mode()\<close> counts the non-missing values and keeps those of the highest
  count, in order of first appearance; it then sorts them, and leaves them as they are
  when the values cannot be compared (numbers mixed with strings).
\<close>

definition most_frequent :: "'a list \<Rightarrow> 'a list" where
  "most_frequent xs =
     (let keys = rev (remdups (rev xs));
          top = foldr max (map (count_list xs) keys) 0
      in filter (\<lambda>k. count_list xs k = top) keys)"

text \<open>The order pandas sorts mixed values in: numbers, then strings, then nulls.\<close>

fun cell_key :: "cell \<Rightarrow> nat \<times> int \<times> string" where
  "cell_key (Num n) = (0, n, [])"
| "cell_key (Str s) = (1, 0, s)"
| "cell_key Missing = (2, 0, [])"

definition series_mode :: "cell list \<Rightarrow> cell list" where
  "series_mode xs =
     (let ms = most_frequent (dropna xs)
      in if list_all is_num ms \<or> list_all is_str ms then sort_key cell_key ms else ms)"

subsection \<open>datetime\<close>

record datetime =
  dt_year :: int
  dt_month :: int
  dt_day :: int

definition month_abbr :: "string list" where
  "month_abbr = [''Jan'', ''Feb'', ''Mar'', ''Apr'', ''May'', ''Jun'',
                 ''Jul'', ''Aug'', ''Sep'', ''Oct'', ''Nov'', ''Dec'']"

definition is_digit :: "char \<Rightarrow> bool" where
  "is_digit c = (digit_val c \<noteq> None)"

definition digits_value :: "string \<Rightarrow> nat" where
  "digits_value s =
     foldl (\<lambda>acc c. 10 * acc + (case digit_val c of None \<Rightarrow> 0 | Some d \<Rightarrow> d)) 0 s"

fun find_month :: "string \<Rightarrow> (int \<times> string) list \<Rightarrow> int option" where
  "find_month s [] = None"
| "find_month s ((i, a) # rest) = (if upper s = upper a then Some i else find_month s rest)"

text \<open>
  \<^verbatim>\<open>datetime.strptime(s, "%b-%Y")\<close>: the whole of \<open>s\<close> is a month abbreviation in any
  letter case, a hyphen and exactly four digits; the year 0000 is no date. The day of
  the result is 1.
\<close>

definition strptime_bY :: "string \<Rightarrow> py_error + datetime" where
  "strptime_bY s =
     (case find_month (take 3 s) (enumerate_from 1 month_abbr) of
        None \<Rightarrow> Inl ValueError
      | Some m \<Rightarrow>
          if length s = 8 \<and> s ! 3 = CHR ''-'' \<and> list_all is_digit (drop 4 s) then
            (if digits_value (drop 4 s) = 0 then Inl ValueError
             else Inr \<lparr>dt_year = int (digits_value (drop 4 s)), dt_month = m, dt_day = 1\<rparr>)
          else Inl ValueError)"

text \<open>\<^verbatim>\<open>dt.strftime("%b")\<close>\<close>

definition strftime_b :: "datetime \<Rightarrow> py_error + string" where
  "strftime_b dt = list_index month_abbr (dt_month dt - 1)"

fun month_number :: "month_of_year \<Rightarrow> int" where
  "month_number January = 1"
| "month_number February = 2"
| "month_number March = 3"
| "month_number April = 4"
| "month_number May = 5"
| "month_number June = 6"
| "month_number July = 7"
| "month_number August = 8"
| "month_number September = 9"
| "month_number October = 10"
| "month_number November = 11"
| "month_number December = 12"

subsection \<open>extract\_month\<close>

text \<open>Lines 17 to 19: the loop over the month codes returns at the first one found.\<close>

fun scan_months :: "string \<Rightarrow> (int \<times> string) list \<Rightarrow> (int \<times> string) option" where
  "scan_months s [] = None"
| "scan_months s ((i, m) # rest) = (if py_in m s then Some (i, m) else scan_months s rest)"

text \<open>Lines 26 and 27, the body of the \<^verbatim>\<open>try\<close> on the Meesho path.\<close>

definition meesho_month_number :: "ledger \<Rightarrow> py_error + month_result" where
  "meesho_month_number df =
     (case iloc0 (series_mode (dropna (column df ''month_number''))) of
        Inl e \<Rightarrow> Inl e
      | Inr v \<Rightarrow>
          (case py_int v of
             Inl e \<Rightarrow> Inl e
           | Inr month_num \<Rightarrow>
               (case list_index months (month_num - 1) of
                  Inl e \<Rightarrow> Inl e
                | Inr m \<Rightarrow> Inr (Some month_num, Some m))))"

text \<open>Lines 40 to 42, the body of the \<^verbatim>\<open>try\<close> on the Flipkart path.\<close>

definition flipkart_amended_period :: "ledger \<Rightarrow> py_error + month_result" where
  "flipkart_amended_period df =
     (case iloc0 (sort (most_frequent (map astype_str (dropna (column df ''Amended Period''))))) of
        Inl e \<Rightarrow> Inl e
      | Inr month_str \<Rightarrow>
          (case strptime_bY month_str of
             Inl e \<Rightarrow> Inl e
           | Inr dt \<Rightarrow>
               (case strftime_b dt of
                  Inl e \<Rightarrow> Inl e
                | Inr b \<Rightarrow> Inr (Some (dt_month dt), Some (upper b)))))"

text \<open>
  Lines 48 to 50, the body of the last \<^verbatim>\<open>try\<close>. The months of the parsed dates are
  integers when every date parsed; with a NaT among them pandas returns them as
  floats, the mode is a float, and indexing the list \<^verbatim>\<open>months\<close> with it raises
  \<^verbatim>\<open>TypeError\<close>.
\<close>

definition date_column_month :: "date_parser \<Rightarrow> ledger \<Rightarrow> string \<Rightarrow> py_error + month_result" where
  "date_column_month to_datetime df date_column =
     (let dates = map to_datetime (column df date_column);
          month_values = map month_number (List.map_filter id dates)
      in case iloc0 (sort (most_frequent month_values)) of
           Inl e \<Rightarrow> Inl e
         | Inr month_num \<Rightarrow>
             if list_all (\<lambda>d. d \<noteq> None) dates then
               (case list_index months (month_num - 1) of
                  Inl e \<Rightarrow> Inl e
                | Inr m \<Rightarrow> Inr (Some month_num, Some m))
             else Inl TypeError)"

text \<open>
  Lines 22 to 44: each platform branch either returns from the function or leaves a
  value in the variable \<^verbatim>\<open>date_column\<close>.
\<close>

datatype fallback = Return month_result | Date_column "string option"

definition platform_fallback :: "ledger \<Rightarrow> platform \<Rightarrow> fallback" where
  "platform_fallback df p =
     (case p of
        Meesho \<Rightarrow>
          if has_column df ''month_number'' then
            (case meesho_month_number df of
               Inr r \<Rightarrow> Return r
             | Inl e \<Rightarrow> Return (None, None))
          else if has_column df ''order_date'' then Date_column (Some ''order_date'')
          else Date_column None
      | Amazon \<Rightarrow>
          Date_column (find (has_column df) [''Invoice Date'', ''Order Date'', ''Shipment Date''])
      | Flipkart \<Rightarrow>
          if has_column df ''Amended Period'' then
            (case flipkart_amended_period df of
               Inr r \<Rightarrow> Return r
             | Inl e \<Rightarrow> Date_column None)
          else Date_column None)"

definition extract_month :: "date_parser \<Rightarrow> string \<Rightarrow> ledger \<Rightarrow> platform \<Rightarrow> py_error + month_result" where
  "extract_month to_datetime file_name df p =
     (case scan_months (upper file_name) (enumerate_from 1 months) of
        Some (i, m) \<Rightarrow> Inr (Some i, Some m)
      | None \<Rightarrow>
          (case platform_fallback df p of
             Return r \<Rightarrow> Inr r
           | Date_column None \<Rightarrow> Inr (None, None)
           | Date_column (Some c) \<Rightarrow>
               (case date_column_month to_datetime df c of
                  Inr r \<Rightarrow> Inr r
                | Inl e \<Rightarrow> Inr (None, None))))"

subsection \<open>The platform summary loop\<close>

text \<open>Lines 110 to 121: the columns of each platform.\<close>

fun total_col :: "platform \<Rightarrow> string" where
  "total_col Amazon = ''Invoice Amount''"
| "total_col Flipkart = ''Aggregate Taxable Value Rs.''"
| "total_col Meesho = ''total_invoice_value''"

fun tax_col :: "platform \<Rightarrow> string" where
  "tax_col Amazon = ''Total Tax Amount''"
| "tax_col Flipkart = ''IGST Amount Rs.''"
| "tax_col Meesho = ''tax_amount''"

fun state_col :: "platform \<Rightarrow> string" where
  "state_col Amazon = ''Ship To State''"
| "state_col Flipkart = ''Delivered State (PoS)''"
| "state_col Meesho = ''end_customer_state_new''"

text \<open>
  \<^verbatim>\<open>Series.sum()\<close> skips missing values. With a string in the column the total is no
  number: the sum of numbers and strings raises \<^verbatim>\<open>TypeError\<close>, and the concatenation
  that the sum of strings alone returns is refused by the number format of line 132.
  Both end the run; the model raises at the sum.
\<close>

fun series_sum :: "cell list \<Rightarrow> py_error + int" where
  "series_sum [] = Inr 0"
| "series_sum (Missing # cs) = series_sum cs"
| "series_sum (Num n # cs) = (case series_sum cs of Inl e \<Rightarrow> Inl e | Inr t \<Rightarrow> Inr (n + t))"
| "series_sum (Str s # cs) = Inl TypeError"

text \<open>
  \<^verbatim>\<open>df.groupby(key_col)[val_col].sum()\<close>: rows with a missing key are dropped, the
  groups come in the sorted order of their keys, each with the sum of its values.
\<close>

fun group_sums :: "row list \<Rightarrow> string \<Rightarrow> string \<Rightarrow> cell list \<Rightarrow> py_error + (cell \<times> int) list" where
  "group_sums rs key_col val_col [] = Inr []"
| "group_sums rs key_col val_col (k # ks) =
     (case series_sum (map (\<lambda>r. cell_at r val_col) (filter (\<lambda>r. cell_at r key_col = k) rs)) of
        Inl e \<Rightarrow> Inl e
      | Inr t \<Rightarrow>
          (case group_sums rs key_col val_col ks of
             Inl e \<Rightarrow> Inl e
           | Inr g \<Rightarrow> Inr ((k, t) # g)))"

definition group_keys :: "ledger \<Rightarrow> string \<Rightarrow> cell list" where
  "group_keys df key_col = sort_key cell_key (remdups (dropna (column df key_col)))"

definition groupby_sum :: "ledger \<Rightarrow> string \<Rightarrow> string \<Rightarrow> py_error + (cell \<times> int) list" where
  "groupby_sum df key_col val_col = group_sums (rows df) key_col val_col (group_keys df key_col)"

text \<open>
  \<^verbatim>\<open>sort_values(ascending=False)\<close>: pandas reverses the values, sorts them in ascending
  order with numpy's default sort and reverses the result. The default sort
  (\<^verbatim>\<open>kind='quicksort'\<close>) is documented as not stable: it returns the values in ascending
  order, and the order it leaves equal values in is not fixed. The sort is therefore a
  parameter of the model; \<open>sorts_ascending\<close> is all that its documentation says of it.
\<close>

type_synonym sorter = "(cell \<times> int) list \<Rightarrow> (cell \<times> int) list"


definition sort_values_desc :: "sorter \<Rightarrow> (cell \<times> int) list \<Rightarrow> (cell \<times> int) list" where
  "sort_values_desc quicksort g = rev (quicksort (rev g))"

text \<open>
  Two sorts for the examples, both in ascending order: the first keeps equal values in
  the order they come in, the second turns that order around.
\<close>

definition stable_sort :: sorter where
  "stable_sort g = sort_key snd g"


definition head :: "nat \<Rightarrow> 'a list \<Rightarrow> 'a list" where
  "head n xs = take n xs"

record report_state =
  sales_summary :: "(platform \<times> int) list"
  tax_summary :: "(platform \<times> int) list"

record platform_summary =
  ps_platform :: platform
  ps_month :: string
  present :: bool
  total_sales :: "int option"
  total_tax :: "int option"
  region_breakdown :: "(cell \<times> int) list"

text \<open>Lines 136 to 139.\<close>

definition state_sales :: "sorter \<Rightarrow> platform \<Rightarrow> ledger \<Rightarrow> py_error + (cell \<times> int) list" where
  "state_sales quicksort p df =
     (if has_column df (state_col p) then
        (case groupby_sum df (state_col p) (total_col p) of
           Inl e \<Rightarrow> Inl e
         | Inr g \<Rightarrow> Inr (head 10 (sort_values_desc quicksort g)))
      else Inr [])"

text \<open>
  Lines 106 to 148, one pass of the loop body: what it shows for the platform is the
  summary, the two lists it appends to are the state.
\<close>

definition summarize :: "sorter \<Rightarrow> platform \<Rightarrow> ledger \<Rightarrow> string option \<Rightarrow> report_state
    \<Rightarrow> py_error + (platform_summary \<times> report_state)" where
  "summarize quicksort p df month_name st =
     (let month = (case month_name of
                     None \<Rightarrow> ''Unknown''
                   | Some m \<Rightarrow> if m = [] then ''Unknown'' else m)
      in if has_column df (total_col p) \<and> has_column df (tax_col p) then
           (case series_sum (column df (total_col p)) of
              Inl e \<Rightarrow> Inl e
            | Inr sales \<Rightarrow>
                (case series_sum (column df (tax_col p)) of
                   Inl e \<Rightarrow> Inl e
                 | Inr tax \<Rightarrow>
                     (case state_sales quicksort p df of
                        Inl e \<Rightarrow> Inl e
                      | Inr breakdown \<Rightarrow>
                          Inr (\<lparr>ps_platform = p, ps_month = month, present = True,
                                total_sales = Some sales, total_tax = Some tax,
                                region_breakdown = breakdown\<rparr>,
                               st\<lparr>sales_summary := sales_summary st @ [(p, sales)],
                                  tax_summary := tax_summary st @ [(p, tax)]\<rparr>))))
         else
           Inr (\<lparr>ps_platform = p, ps_month = month, present = False,
                 total_sales = None, total_tax = None, region_breakdown = []\<rparr>, st))"

text \<open>A date parser for the examples: ISO dates \<^verbatim>\<open>YYYY-MM-DD\<close>, one of the formats pandas reads.\<close>

definition iso_month :: "cell \<Rightarrow> month_of_year option" where
  "iso_month c =
     (case c of
        Str s \<Rightarrow>
          if length s = 10 \<and> s ! 4 = CHR ''-'' \<and> s ! 7 = CHR ''-''
             \<and> list_all is_digit (take 4 s) \<and> list_all is_digit (take 2 (drop 5 s))
             \<and> list_all is_digit (drop 8 s)
             \<and> 1 \<le> digits_value (drop 8 s) \<and> digits_value (drop 8 s) \<le> 28
          then
            (case list_index
                    [January, February, March, April, May, June,
                     July, August, September, October, November, December]
                    (int (digits_value (take 2 (drop 5 s))) - 1) of
               Inl e \<Rightarrow> None
             | Inr m \<Rightarrow> if digits_value (take 2 (drop 5 s)) = 0 then None else Some m)
          else None
      | Num n \<Rightarrow> None
      | Missing \<Rightarrow> None)"

text \<open>
  The reading of a cell in a total, as the specification words it: a number counts as
  itself, anything else as 0.
\<close>

fun value_or_zero :: "cell \<Rightarrow> int" where
  "value_or_zero (Num n) = n"
| "value_or_zero c = 0"

text \<open>
  Python's order on values, which sorting uses: a number is less than a number, a
  string less than a string; a number is not compared with a string.
\<close>

fun py_less :: "cell \<Rightarrow> cell \<Rightarrow> bool" where
  "py_less (Num a) (Num b) = (a < b)"
| "py_less (Str a) (Str b) = (a < b)"
| "py_less c d = False"

text \<open>
  The form of an amended period, as the specification words it: the abbreviation of
  month \<open>j + 1\<close> in any letter case, a hyphen and a four-digit year other than 0000.
\<close>

definition month_year_format :: "string \<Rightarrow> nat \<Rightarrow> bool" where
  "month_year_format s j =
     (\<exists>a y. s = a @ ''-'' @ y \<and> length a = 3 \<and> j < 12 \<and> upper a = months ! j
        \<and> length y = 4 \<and> list_all is_digit y \<and> digits_value y \<noteq> 0)"

section \<open>Supporting lemmas\<close>

subsection \<open>Substrings and the scan of the file name\<close>

lemma starts_with_prefix: "starts_with s m \<longleftrightarrow> prefix m s"
  by (induction s m rule: starts_with.induct) auto

lemma py_in_sublist: "py_in m s \<longleftrightarrow> sublist m s"
proof (induction s)
  case Nil
  then show ?case by simp
next
  case (Cons c s)
  then show ?case by (simp add: starts_with_prefix sublist_Cons_right)
qed

lemma sublist_upper: "sublist w s \<Longrightarrow> sublist (upper w) (upper s)"
proof -
  assume "sublist w s"
  then obtain ps ss where "s = ps @ w @ ss" by (auto simp: sublist_def)
  then have "upper s = upper ps @ upper w @ upper ss" by (simp add: upper_def)
  then show ?thesis unfolding sublist_def by blast
qed

lemma scan_months_None:
  "scan_months s (enumerate_from k xs) = None \<longleftrightarrow> (\<forall>m\<in>set xs. \<not> sublist m s)"
  by (induction xs arbitrary: k) (simp_all add: py_in_sublist)

lemma scan_months_Some:
  "scan_months s (enumerate_from k xs) = Some (i, m) \<Longrightarrow>
   \<exists>j<length xs. i = k + int j \<and> m = xs ! j \<and> sublist m s \<and> (\<forall>l<j. \<not> sublist (xs ! l) s)"
proof (induction xs arbitrary: k)
  case Nil
  then show ?case by simp
next
  case (Cons x xs)
  show ?case
  proof (cases "py_in x s")
    case True
    with Cons.prems have "i = k" "m = x" by simp_all
    with True show ?thesis by (auto simp: py_in_sublist intro!: exI [of _ 0])
  next
    case False
    with Cons.prems have "scan_months s (enumerate_from (k + 1) xs) = Some (i, m)" by simp
    from Cons.IH [OF this] obtain j where j: "j < length xs" "i = k + 1 + int j" "m = xs ! j"
      "sublist m s" "\<forall>l<j. \<not> sublist (xs ! l) s" by blast
    have "\<forall>l<Suc j. \<not> sublist ((x # xs) ! l) s"
      using j(5) False by (auto simp: py_in_sublist less_Suc_eq_0_disj)
    with j show ?thesis by (intro exI [of _ "Suc j"]) auto
  qed
qed

lemma length_months: "length months = 12"
  by (simp add: months_def)

lemma no_code_scan:
  "\<forall>m\<in>set months. \<not> sublist m (upper file_name) \<Longrightarrow>
   scan_months (upper file_name) (enumerate_from 1 months) = None"
  by (simp add: scan_months_None)

subsection \<open>The format \<^verbatim>\<open>%b-%Y\<close>\<close>

lemma find_month_nth:
  "j < length xs \<Longrightarrow> distinct (map upper xs) \<Longrightarrow> upper s = upper (xs ! j) \<Longrightarrow>
   find_month s (enumerate_from k xs) = Some (k + int j)"
proof (induction xs arbitrary: j k)
  case Nil
  then show ?case by simp
next
  case (Cons x xs)
  show ?case
  proof (cases j)
    case 0
    with Cons.prems show ?thesis by simp
  next
    case (Suc i)
    with Cons.prems have i: "i < length xs" "distinct (map upper xs)" "upper s = upper (xs ! i)"
      by simp_all
    have "upper (xs ! i) \<in> set (map upper xs)"
      using i(1) by simp
    moreover have "upper x \<notin> set (map upper xs)"
      using Cons.prems(2) by simp
    ultimately have "upper s \<noteq> upper x"
      using i(3) by metis
    with Cons.IH [OF i, of "k + 1"] Suc show ?thesis by simp
  qed
qed

lemma find_month_Some:
  "find_month s (enumerate_from k xs) = Some i \<Longrightarrow>
   \<exists>j<length xs. i = k + int j \<and> upper s = upper (xs ! j)"
proof (induction xs arbitrary: k)
  case Nil
  then show ?case by simp
next
  case (Cons x xs)
  show ?case
  proof (cases "upper s = upper x")
    case True
    with Cons.prems show ?thesis by (auto intro!: exI [of _ 0])
  next
    case False
    with Cons.prems have "find_month s (enumerate_from (k + 1) xs) = Some i" by simp
    from Cons.IH [OF this] obtain j where "j < length xs" "i = k + 1 + int j" "upper s = upper (xs ! j)"
      by blast
    then show ?thesis by (intro exI [of _ "Suc j"]) auto
  qed
qed

lemma upper_month_abbr: "map upper month_abbr = months"
  by (simp add: month_abbr_def months_def upper_def upper_char_def)

lemma distinct_months: "distinct months"
  by (simp add: months_def)

lemma length_month_abbr: "length month_abbr = 12"
  by (simp add: month_abbr_def)

lemma upper_month_abbr_nth: "j < 12 \<Longrightarrow> upper (month_abbr ! j) = months ! j"
  using nth_map [of j month_abbr upper] by (simp add: upper_month_abbr length_month_abbr)

lemma strptime_bY_format:
  assumes "length a = 3" "j < 12" "upper a = months ! j"
    and "length y = 4" "list_all is_digit y" "digits_value y \<noteq> 0"
  shows "strptime_bY (a @ ''-'' @ y) =
    Inr \<lparr>dt_year = int (digits_value y), dt_month = int j + 1, dt_day = 1\<rparr>"
proof -
  have "find_month a (enumerate_from 1 month_abbr) = Some (1 + int j)"
    using assms(2,3) by (intro find_month_nth) (simp_all add: upper_month_abbr distinct_months
        length_month_abbr upper_month_abbr_nth)
  moreover have "take 3 (a @ ''-'' @ y) = a" "drop 4 (a @ ''-'' @ y) = y"
    "(a @ ''-'' @ y) ! 3 = CHR ''-''" "length (a @ ''-'' @ y) = 8"
    using assms(1,4) by (simp_all add: nth_append)
  ultimately show ?thesis using assms(5,6) by (simp add: strptime_bY_def add.commute)
qed

lemma strptime_bY_Inr:
  assumes "strptime_bY s = Inr dt"
  shows "\<exists>a y j. s = a @ ''-'' @ y \<and> length a = 3 \<and> j < 12 \<and> upper a = months ! j
      \<and> length y = 4 \<and> list_all is_digit y \<and> digits_value y \<noteq> 0
      \<and> dt = \<lparr>dt_year = int (digits_value y), dt_month = int j + 1, dt_day = 1\<rparr>"
proof -
  from assms obtain m where m: "find_month (take 3 s) (enumerate_from 1 month_abbr) = Some m"
    and s: "length s = 8" "s ! 3 = CHR ''-''" "list_all is_digit (drop 4 s)"
      "digits_value (drop 4 s) \<noteq> 0"
    and dt: "dt = \<lparr>dt_year = int (digits_value (drop 4 s)), dt_month = m, dt_day = 1\<rparr>"
    by (auto simp: strptime_bY_def split: option.splits if_splits)
  from find_month_Some [OF m] obtain j where j: "j < 12" "m = 1 + int j"
    "upper (take 3 s) = upper (month_abbr ! j)"
    by (auto simp: length_month_abbr)
  have "s = take 3 s @ drop 3 s" by simp
  moreover have "drop 3 s = s ! 3 # drop 4 s"
  proof -
    have "s ! 3 # drop (Suc 3) s = drop 3 s"
      using s(1) by (intro Cons_nth_drop_Suc) simp
    moreover have "Suc 3 = 4" by simp
    ultimately show ?thesis by simp
  qed
  ultimately have "s = take 3 s @ ''-'' @ drop 4 s" using s(2) by simp
  with j s dt show ?thesis
    by (intro exI [of _ "take 3 s"] exI [of _ "drop 4 s"] exI [of _ j])
      (simp add: upper_month_abbr_nth)
qed

subsection \<open>The results of the fallback steps are pairs\<close>

lemma meesho_month_number_pair:
  "meesho_month_number df = Inr r \<Longrightarrow> \<exists>n l. r = (Some n, Some l)"
  by (auto simp: meesho_month_number_def split: sum.splits)

lemma flipkart_amended_period_pair:
  "flipkart_amended_period df = Inr r \<Longrightarrow> \<exists>n l. r = (Some n, Some l)"
  by (auto simp: flipkart_amended_period_def split: sum.splits)

lemma date_column_month_pair:
  "date_column_month to_datetime df c = Inr r \<Longrightarrow> \<exists>n l. r = (Some n, Some l)"
  by (auto simp: date_column_month_def Let_def split: sum.splits if_splits)

lemma platform_fallback_pair:
  "platform_fallback df p = Return r \<Longrightarrow> (\<exists>n l. r = (Some n, Some l)) \<or> r = (None, None)"
  by (cases p)
    (auto simp: platform_fallback_def split: if_splits sum.splits
      dest: meesho_month_number_pair flipkart_amended_period_pair)

subsection \<open>Sums of columns\<close>

lemma series_sum_numeric:
  "list_all (\<lambda>c. \<not> is_str c) cs \<Longrightarrow> series_sum cs = Inr (sum_list (map value_or_zero cs))"
proof (induction cs)
  case Nil
  then show ?case by simp
next
  case (Cons c cs)
  then show ?case by (cases c) simp_all
qed

lemma series_sum_string:
  "\<not> list_all (\<lambda>c. \<not> is_str c) cs \<Longrightarrow> series_sum cs = Inl TypeError"
proof (induction cs)
  case Nil
  then show ?case by simp
next
  case (Cons c cs)
  then show ?case by (cases c) (auto split: sum.splits)
qed

lemma series_sum_Inr_iff:
  "series_sum cs = Inr t \<longleftrightarrow>
   list_all (\<lambda>c. \<not> is_str c) cs \<and> t = sum_list (map value_or_zero cs)"
  using series_sum_numeric [of cs] series_sum_string [of cs]
  by (cases "list_all (\<lambda>c. \<not> is_str c) cs") auto

lemma group_sums_numeric:
  "list_all (\<lambda>c. \<not> is_str c) (map (\<lambda>r. cell_at r vc) rs) \<Longrightarrow>
   group_sums rs kc vc ks =
     Inr (map (\<lambda>k. (k, sum_list (map (\<lambda>r. value_or_zero (cell_at r vc))
                                       (filter (\<lambda>r. cell_at r kc = k) rs)))) ks)"
proof (induction ks)
  case Nil
  then show ?case by simp
next
  case (Cons k ks)
  have "list_all (\<lambda>c. \<not> is_str c) (map (\<lambda>r. cell_at r vc) (filter (\<lambda>r. cell_at r kc = k) rs))"
    using Cons.prems by (simp add: list_all_iff)
  then have "series_sum (map (\<lambda>r. cell_at r vc) (filter (\<lambda>r. cell_at r kc = k) rs)) =
      Inr (sum_list (map (\<lambda>r. value_or_zero (cell_at r vc)) (filter (\<lambda>r. cell_at r kc = k) rs)))"
    by (simp add: series_sum_numeric comp_def)
  with Cons show ?case by simp
qed

subsection \<open>Groups and their ranking\<close>

lemma is_missing_iff: "is_missing c \<longleftrightarrow> c = Missing"
  by (cases c) simp_all




subsection \<open>The mode of a column\<close>

lemma foldr_max_ge: "n \<in> set ns \<Longrightarrow> n \<le> foldr max ns (0::nat)"
  by (induction ns) auto

lemma foldr_max_mem: "ns \<noteq> [] \<Longrightarrow> foldr max ns (0::nat) \<in> set ns"
proof (induction ns)
  case Nil
  then show ?case by simp
next
  case (Cons n ns)
  show ?case
  proof (cases "ns = []")
    case True
    then show ?thesis by simp
  next
    case False
    with Cons.IH have "foldr max ns 0 \<in> set ns" by simp
    moreover have "max n (foldr max ns 0) = n \<or> max n (foldr max ns 0) = foldr max ns 0"
      unfolding max_def by simp
    ultimately show ?thesis by auto
  qed
qed

lemma most_frequent_set:
  "set (most_frequent xs) = {k \<in> set xs. \<forall>y. count_list xs y \<le> count_list xs k}"
proof -
  let ?keys = "rev (remdups (rev xs))"
  let ?top = "foldr max (map (count_list xs) ?keys) 0"
  have keys: "set ?keys = set xs" by simp
  have ms: "set (most_frequent xs) = {k \<in> set xs. count_list xs k = ?top}"
    by (auto simp: most_frequent_def Let_def)
  have ge: "count_list xs y \<le> ?top" for y
  proof (cases "y \<in> set xs")
    case True
    then have "count_list xs y \<in> set (map (count_list xs) ?keys)" by simp
    then show ?thesis by (rule foldr_max_ge)
  next
    case False
    then show ?thesis by simp
  qed
  have "count_list xs k = ?top \<longleftrightarrow> (\<forall>y. count_list xs y \<le> count_list xs k)"
    if k: "k \<in> set xs" for k
  proof
    assume "count_list xs k = ?top"
    with ge show "\<forall>y. count_list xs y \<le> count_list xs k" by simp
  next
    assume all: "\<forall>y. count_list xs y \<le> count_list xs k"
    from k have "map (count_list xs) ?keys \<noteq> []" by auto
    then have "?top \<in> set (map (count_list xs) ?keys)" by (rule foldr_max_mem)
    then obtain k0 where "?top = count_list xs k0" by auto
    with all have "?top \<le> count_list xs k" by simp
    with ge [of k] show "count_list xs k = ?top" by simp
  qed
  with ms show ?thesis by auto
qed

lemma count_list_filter:
  "count_list (filter P xs) t = (if P t then count_list xs t else 0)"
  by (induction xs) auto

lemma dropna_filter: "dropna xs = filter (\<lambda>c. c \<noteq> Missing) xs"
  by (simp add: dropna_def is_missing_iff)

lemma dropna_idem: "dropna (dropna xs) = dropna xs"
  by (simp add: dropna_def)

lemma sort_key_head:
  assumes "sort_key f ms = x # r"
  shows "x \<in> set ms \<and> (\<forall>t\<in>set ms. f x \<le> f t)"
proof -
  have "sorted (map f (sort_key f ms))" by simp
  with assms have "\<forall>t\<in>set r. f x \<le> f t" by simp
  moreover have "set ms = set (x # r)" using assms by (metis set_sort)
  ultimately show ?thesis by auto
qed

lemma iloc0_sort_key_least:
  assumes "v \<in> set ms" and "\<forall>t\<in>set ms. t = v \<or> f v < f t"
  shows "iloc0 (sort_key f ms) = Inr v"
proof (cases "sort_key f ms")
  case Nil
  then have "set ms = {}" by (metis set_sort set_empty)
  with assms(1) show ?thesis by simp
next
  case (Cons x r)
  from sort_key_head [OF Cons] have x: "x \<in> set ms" "f x \<le> f v" using assms(1) by auto
  with assms(2) have "x = v" by fastforce
  with Cons show ?thesis by (simp add: iloc0_def)
qed

lemma py_less_cell_key: "py_less v t \<Longrightarrow> cell_key v < cell_key t"
  by (cases v; cases t) simp_all

lemma py_less_kind: "py_less v t \<Longrightarrow> (is_num v \<and> is_num t) \<or> (is_str v \<and> is_str t)"
  by (cases v; cases t) simp_all

lemma series_mode_first:
  assumes "v \<in> set xs" and "v \<noteq> Missing"
    and "\<forall>t. t \<noteq> Missing \<longrightarrow> t \<noteq> v \<longrightarrow>
           count_list xs t < count_list xs v
           \<or> (count_list xs t = count_list xs v \<and> py_less v t)"
  shows "iloc0 (series_mode xs) = Inr v"
proof -
  let ?ms = "most_frequent (dropna xs)"
  have cnt: "count_list (dropna xs) t = (if t \<noteq> Missing then count_list xs t else 0)" for t
    by (simp add: dropna_filter count_list_filter)
  have "\<forall>y. count_list (dropna xs) y \<le> count_list (dropna xs) v"
  proof
    fix y
    show "count_list (dropna xs) y \<le> count_list (dropna xs) v"
      using assms(2,3) by (cases "y = Missing \<or> y = v") (auto simp: cnt dest: spec [of _ y])
  qed
  moreover have "v \<in> set (dropna xs)" using assms(1,2) by (simp add: dropna_filter)
  ultimately have v: "v \<in> set ?ms" by (simp add: most_frequent_set)
  have others: "\<forall>t\<in>set ?ms. t = v \<or> py_less v t"
  proof
    fix t
    assume "t \<in> set ?ms"
    then have t: "t \<in> set (dropna xs)" "count_list (dropna xs) v \<le> count_list (dropna xs) t"
      by (simp_all add: most_frequent_set)
    then have "t \<noteq> Missing" by (simp add: dropna_filter)
    with t(2) assms(2) have "count_list xs v \<le> count_list xs t" by (simp add: cnt)
    with assms(3) \<open>t \<noteq> Missing\<close> show "t = v \<or> py_less v t"
      by (metis not_le)
  qed
  have "list_all is_num ?ms \<or> list_all is_str ?ms"
  proof (cases v)
    case Missing
    with assms(2) show ?thesis by simp
  next
    case (Num n)
    have "is_num t" if "t \<in> set ?ms" for t
      using others that Num py_less_kind [of v t] by auto
    then show ?thesis by (simp add: list_all_iff)
  next
    case (Str a)
    have "is_str t" if "t \<in> set ?ms" for t
      using others that Str py_less_kind [of v t] by auto
    then show ?thesis by (simp add: list_all_iff)
  qed
  then have "series_mode xs = sort_key cell_key ?ms"
    by (simp add: series_mode_def Let_def)
  moreover have "iloc0 (sort_key cell_key ?ms) = Inr v"
    using v others by (intro iloc0_sort_key_least) (auto dest: py_less_cell_key)
  ultimately show ?thesis by simp
qed

lemma iloc0_sort_mode:
  fixes s :: "'a::linorder"
  assumes "s \<in> set xs"
    and "\<forall>t. t \<noteq> s \<longrightarrow> count_list xs t < count_list xs s
           \<or> (count_list xs t = count_list xs s \<and> s < t)"
  shows "iloc0 (sort (most_frequent xs)) = Inr s"
proof -
  have "\<forall>y. count_list xs y \<le> count_list xs s"
  proof
    fix y
    show "count_list xs y \<le> count_list xs s"
      using assms(2) by (cases "y = s") (auto dest: spec [of _ y])
  qed
  with assms(1) have s: "s \<in> set (most_frequent xs)" by (simp add: most_frequent_set)
  have "\<forall>t\<in>set (most_frequent xs). t = s \<or> s < t"
  proof
    fix t
    assume "t \<in> set (most_frequent xs)"
    then have "count_list xs s \<le> count_list xs t" by (simp add: most_frequent_set)
    with assms(2) show "t = s \<or> s < t" by (metis not_le)
  qed
  with s show ?thesis by (intro iloc0_sort_key_least) auto
qed

lemma month_year_format_parses:
  "month_year_format s j \<Longrightarrow> \<exists>dt. strptime_bY s = Inr dt \<and> dt_month dt = int j + 1"
proof -
  assume "month_year_format s j"
  then obtain a y where f: "s = a @ ''-'' @ y" "length a = 3" "j < 12" "upper a = months ! j"
    "length y = 4" "list_all is_digit y" "digits_value y \<noteq> 0"
    unfolding month_year_format_def by blast
  from strptime_bY_format [OF f(2-7)] f(1) show ?thesis by simp
qed

lemma no_format_fails:
  assumes "\<forall>j. \<not> month_year_format s j"
  shows "\<exists>e. strptime_bY s = Inl e"
proof (cases "strptime_bY s")
  case (Inl e)
  then show ?thesis by simp
next
  case (Inr dt)
  from strptime_bY_Inr [OF Inr] have "\<exists>j. month_year_format s j"
    unfolding month_year_format_def by blast
  with assms show ?thesis by simp
qed

subsection \<open>The ranking\<close>





section \<open>The claims\<close>

subsection \<open>C1: when a summary is marked as not present\<close>

text \<open>
  C1, as stated, makes \<open>present = false\<close> equivalent to both columns being absent. The
  ledger below has the sales column of Amazon and lacks the tax column: not both
  columns are absent, and the summary is still marked as not present.
\<close>

theorem summarize_sales_only_counterexample:
  "has_column \<lparr>columns = [''Invoice Amount''], rows = [[(''Invoice Amount'', Num 100)]]\<rparr>
     (total_col Amazon)
   \<and> summarize stable_sort Amazon
        \<lparr>columns = [''Invoice Amount''], rows = [[(''Invoice Amount'', Num 100)]]\<rparr> None
        \<lparr>sales_summary = [], tax_summary = []\<rparr>
     = Inr (\<lparr>ps_platform = Amazon, ps_month = ''Unknown'', present = False,
             total_sales = None, total_tax = None, region_breakdown = []\<rparr>,
            \<lparr>sales_summary = [], tax_summary = []\<rparr>)"
  by (simp add: summarize_def has_column_def)

text \<open>
  C1, amended: a summary that \<open>summarize\<close> returns is marked as not present exactly
  when at least one of the sales column and the tax column is absent from the ledger's
  columns; with a column absent it does return such a summary, without totals and
  without touching the state; with both columns present and both sums defined it
  returns a summary marked as present that carries the two totals.
\<close>

theorem summarize_present_iff_both_columns:
  "(\<forall>s st'. summarize quicksort p df month_name st = Inr (s, st') \<longrightarrow>
      (present s \<longleftrightarrow> has_column df (total_col p) \<and> has_column df (tax_col p)))
   \<and> (\<not> (has_column df (total_col p) \<and> has_column df (tax_col p)) \<longrightarrow>
        (\<exists>s. summarize quicksort p df month_name st = Inr (s, st) \<and> \<not> present s
             \<and> total_sales s = None \<and> total_tax s = None))
   \<and> (has_column df (total_col p) \<and> has_column df (tax_col p) \<longrightarrow>
        (\<forall>a b. series_sum (column df (total_col p)) = Inr a \<longrightarrow>
               series_sum (column df (tax_col p)) = Inr b \<longrightarrow>
          (\<exists>s st'. summarize quicksort p df month_name st = Inr (s, st') \<and> present s
              \<and> total_sales s = Some a \<and> total_tax s = Some b)))"
proof (intro conjI allI impI)
  fix s st'
  assume "summarize quicksort p df month_name st = Inr (s, st')"
  then show "present s \<longleftrightarrow> has_column df (total_col p) \<and> has_column df (tax_col p)"
    by (auto simp: summarize_def Let_def split: if_splits sum.splits)
next
  assume "\<not> (has_column df (total_col p) \<and> has_column df (tax_col p))"
  then show "\<exists>s. summarize quicksort p df month_name st = Inr (s, st) \<and> \<not> present s
             \<and> total_sales s = None \<and> total_tax s = None"
    by (auto simp: summarize_def Let_def)
next
  fix a b
  assume both: "has_column df (total_col p) \<and> has_column df (tax_col p)"
    and a: "series_sum (column df (total_col p)) = Inr a"
    and b: "series_sum (column df (tax_col p)) = Inr b"
  from a have "list_all (\<lambda>c. \<not> is_str c) (map (\<lambda>r. cell_at r (total_col p)) (rows df))"
    by (simp add: series_sum_Inr_iff column_def)
  then have "\<exists>g. groupby_sum df (state_col p) (total_col p) = Inr g"
    by (simp add: groupby_sum_def group_sums_numeric)
  then have "\<exists>rb. state_sales quicksort p df = Inr rb"
    by (auto simp: state_sales_def)
  then obtain rb where "state_sales quicksort p df = Inr rb" ..
  with both a b show "\<exists>s st'. summarize quicksort p df month_name st = Inr (s, st') \<and> present s
              \<and> total_sales s = Some a \<and> total_tax s = Some b"
    by (simp add: summarize_def Let_def)
qed

theorem summarize_present_iff_both_columns_witness:
  "(\<not> (has_column \<lparr>columns = [''Invoice Amount''], rows = [[(''Invoice Amount'', Num 100)]]\<rparr>
          (total_col Amazon)
        \<and> has_column \<lparr>columns = [''Invoice Amount''], rows = [[(''Invoice Amount'', Num 100)]]\<rparr>
          (tax_col Amazon))
    \<and> (\<exists>s. summarize stable_sort Amazon
              \<lparr>columns = [''Invoice Amount''], rows = [[(''Invoice Amount'', Num 100)]]\<rparr>
              (Some ''MAR'') \<lparr>sales_summary = [], tax_summary = []\<rparr>
            = Inr (s, \<lparr>sales_summary = [], tax_summary = []\<rparr>)
            \<and> \<not> present s \<and> total_sales s = None \<and> total_tax s = None))
   \<and> (has_column \<lparr>columns = [''Invoice Amount'', ''Total Tax Amount''],
           rows = [[(''Invoice Amount'', Num 100), (''Total Tax Amount'', Num 18)]]\<rparr>
          (total_col Amazon)
      \<and> has_column \<lparr>columns = [''Invoice Amount'', ''Total Tax Amount''],
           rows = [[(''Invoice Amount'', Num 100), (''Total Tax Amount'', Num 18)]]\<rparr>
          (tax_col Amazon)
      \<and> (\<exists>s st'. summarize stable_sort Amazon
              \<lparr>columns = [''Invoice Amount'', ''Total Tax Amount''],
               rows = [[(''Invoice Amount'', Num 100), (''Total Tax Amount'', Num 18)]]\<rparr>
              (Some ''MAR'') \<lparr>sales_summary = [], tax_summary = []\<rparr>
            = Inr (s, st')
            \<and> present s \<and> total_sales s = Some 100 \<and> total_tax s = Some 18))"
proof -
  let ?a = "\<lparr>columns = [''Invoice Amount''], rows = [[(''Invoice Amount'', Num 100)]]\<rparr>"
  let ?b = "\<lparr>columns = [''Invoice Amount'', ''Total Tax Amount''],
           rows = [[(''Invoice Amount'', Num 100), (''Total Tax Amount'', Num 18)]]\<rparr>"
  let ?st = "\<lparr>sales_summary = [], tax_summary = []\<rparr>"
  have a: "\<not> (has_column ?a (total_col Amazon) \<and> has_column ?a (tax_col Amazon))"
    by (simp add: has_column_def)
  have b: "has_column ?b (total_col Amazon) \<and> has_column ?b (tax_col Amazon)"
    by (simp add: has_column_def)
  have sa: "series_sum (column ?b (total_col Amazon)) = Inr 100"
    by (simp add: column_def cell_at_def)
  have sb: "series_sum (column ?b (tax_col Amazon)) = Inr 18"
    by (simp add: column_def cell_at_def)
  from a summarize_present_iff_both_columns [of stable_sort Amazon ?a "Some ''MAR''" ?st]
  have 1: "\<exists>s. summarize stable_sort Amazon ?a (Some ''MAR'') ?st = Inr (s, ?st)
            \<and> \<not> present s \<and> total_sales s = None \<and> total_tax s = None"
    by blast
  from b sa sb summarize_present_iff_both_columns [of stable_sort Amazon ?b "Some ''MAR''" ?st]
  have 2: "\<exists>s st'. summarize stable_sort Amazon ?b (Some ''MAR'') ?st = Inr (s, st')
            \<and> present s \<and> total_sales s = Some 100 \<and> total_tax s = Some 18"
    by blast
  from a b 1 2 show ?thesis by blast
qed

subsection \<open>C2: the shape of the month result\<close>

text \<open>
  C2 says that the result is either absent in both fields or a month number from 1 to
  12 with the code at that index. On the Meesho path the mode is converted by
  \<^verbatim>\<open>int\<close> and used as \<^verbatim>\<open>months[month_num - 1]\<close>; the \<^verbatim>\<open>try\<close> rejects a number above
  12 through the \<^verbatim>\<open>IndexError\<close>, and does not reject 0 or a negative number down to
  -11, which Python reads as an index from the end of the list. A ledger whose
  \<^verbatim>\<open>month_number\<close> column holds 0 is resolved to month number 0 with the code of December.
\<close>

theorem extract_month_meesho_zero:
  "extract_month iso_month ''sales.csv''
     \<lparr>columns = [''month_number''], rows = [[(''month_number'', Num 0)]]\<rparr> Meesho
   = Inr (Some 0, Some ''DEC'')"
  by code_simp

subsection \<open>C3: the file name comes first\<close>

text \<open>
  C3: when the file name contains one of the twelve month codes in any letter case,
  \<open>extract_month\<close> returns, for every ledger and platform, the first code of the
  calendar that occurs in the upper-cased file name, with its 1-based index.
\<close>

theorem extract_month_filename_first:
  assumes "\<exists>m\<in>set months. \<exists>w. sublist w file_name \<and> upper w = m"
  shows "\<exists>j<12. extract_month to_datetime file_name df p = Inr (Some (int j + 1), Some (months ! j))
           \<and> sublist (months ! j) (upper file_name)
           \<and> (\<forall>l<j. \<not> sublist (months ! l) (upper file_name))"
proof -
  from assms have "\<exists>m\<in>set months. sublist m (upper file_name)"
    using sublist_upper by blast
  then have "scan_months (upper file_name) (enumerate_from 1 months) \<noteq> None"
    by (simp add: scan_months_None)
  then obtain i m where im: "scan_months (upper file_name) (enumerate_from 1 months) = Some (i, m)"
    by auto
  from scan_months_Some [OF this] obtain j where j: "j < length months" "i = 1 + int j"
    "m = months ! j" "sublist m (upper file_name)" "\<forall>l<j. \<not> sublist (months ! l) (upper file_name)"
    by blast
  from im j have "extract_month to_datetime file_name df p = Inr (Some (int j + 1), Some (months ! j))"
    by (simp add: extract_month_def)
  with j show ?thesis by (auto simp: length_months)
qed

theorem extract_month_filename_first_witness:
  "(\<exists>m\<in>set months. \<exists>w. sublist w ''gst_Dec_to_jan.csv'' \<and> upper w = m)
   \<and> (\<exists>j<12. extract_month iso_month ''gst_Dec_to_jan.csv''
          \<lparr>columns = [''month_number''], rows = [[(''month_number'', Num 7)]]\<rparr> Meesho
        = Inr (Some (int j + 1), Some (months ! j))
        \<and> sublist (months ! j) (upper ''gst_Dec_to_jan.csv'')
        \<and> (\<forall>l<j. \<not> sublist (months ! l) (upper ''gst_Dec_to_jan.csv'')))"
proof -
  have "sublist ''jan'' ''gst_Dec_to_jan.csv''" by code_simp
  moreover have "upper ''jan'' = ''JAN''" by code_simp
  moreover have "''JAN'' \<in> set months" by (simp add: months_def)
  ultimately have h: "\<exists>m\<in>set months. \<exists>w. sublist w ''gst_Dec_to_jan.csv'' \<and> upper w = m"
    by blast
  from h extract_month_filename_first [OF h] show ?thesis by blast
qed

subsection \<open>C4: Meesho, the month number column\<close>

text \<open>
  C4: for a Meesho ledger whose file name contains no month code and whose
  \<^verbatim>\<open>month_number\<close> column has mode 5, the result is \<open>(5, MAY)\<close>, whatever else the
  ledger holds: an \<^verbatim>\<open>order_date\<close> column is not read. The mode is stated on the values
  of the column: \<open>v\<close> is the number 5 or a value that \<^verbatim>\<open>int\<close> converts to 5, it occurs
  in the column, and every other non-missing value occurs less often, or as often and
  is then greater than \<open>v\<close> (pandas returns the modes in ascending order and the code
  takes the first).
\<close>

theorem extract_month_meesho_mode_five:
  assumes "\<forall>m\<in>set months. \<not> sublist m (upper file_name)"
    and "has_column df ''month_number''"
    and "v \<in> set (column df ''month_number'')"
    and "v = Num 5 \<or> (v \<noteq> Missing \<and> py_int v = Inr 5)"
    and "\<forall>t. t \<noteq> Missing \<longrightarrow> t \<noteq> v \<longrightarrow>
           count_list (column df ''month_number'') t < count_list (column df ''month_number'') v
           \<or> (count_list (column df ''month_number'') t = count_list (column df ''month_number'') v
              \<and> py_less v t)"
  shows "extract_month to_datetime file_name df Meesho = Inr (Some 5, Some ''MAY'')"
proof -
  from assms(4) have v: "v \<noteq> Missing" "py_int v = Inr 5" by auto
  have "iloc0 (series_mode (column df ''month_number'')) = Inr v"
    using assms(3) v(1) assms(5) by (rule series_mode_first)
  moreover have "series_mode (dropna (column df ''month_number'')) = series_mode (column df ''month_number'')"
    by (simp add: series_mode_def dropna_idem)
  ultimately have m: "iloc0 (series_mode (dropna (column df ''month_number''))) = Inr v" by simp
  have "list_index months (5 - 1) = Inr ''MAY''"
    by (simp add: list_index_def months_def)
  with m v(2) have "meesho_month_number df = Inr (Some 5, Some ''MAY'')"
    by (simp add: meesho_month_number_def)
  with assms(2) have "platform_fallback df Meesho = Return (Some 5, Some ''MAY'')"
    by (simp add: platform_fallback_def)
  with no_code_scan [OF assms(1)] show ?thesis
    by (simp add: extract_month_def)
qed

theorem extract_month_meesho_mode_five_witness:
  "\<not> (\<exists>m\<in>set months. sublist m (upper ''meesho_sales.csv''))
   \<and> column \<lparr>columns = [''month_number'', ''order_date''],
        rows = [[(''month_number'', Num 7), (''order_date'', Str ''2025-07-01'')],
                [(''month_number'', Num 5), (''order_date'', Str ''2025-07-02'')],
                [(''month_number'', Str ''x''), (''order_date'', Str ''2025-07-03'')],
                [(''month_number'', Num 5), (''order_date'', Str ''2025-07-04'')],
                [(''month_number'', Num 7), (''order_date'', Str ''2025-07-05'')]]\<rparr> ''month_number''
      = [Num 7, Num 5, Str ''x'', Num 5, Num 7]
   \<and> extract_month iso_month ''meesho_sales.csv''
        \<lparr>columns = [''month_number'', ''order_date''],
         rows = [[(''month_number'', Num 7), (''order_date'', Str ''2025-07-01'')],
                 [(''month_number'', Num 5), (''order_date'', Str ''2025-07-02'')],
                 [(''month_number'', Str ''x''), (''order_date'', Str ''2025-07-03'')],
                 [(''month_number'', Num 5), (''order_date'', Str ''2025-07-04'')],
                 [(''month_number'', Num 7), (''order_date'', Str ''2025-07-05'')]]\<rparr> Meesho
      = Inr (Some 5, Some ''MAY'')"
proof -
  let ?df = "\<lparr>columns = [''month_number'', ''order_date''],
        rows = [[(''month_number'', Num 7), (''order_date'', Str ''2025-07-01'')],
                [(''month_number'', Num 5), (''order_date'', Str ''2025-07-02'')],
                [(''month_number'', Str ''x''), (''order_date'', Str ''2025-07-03'')],
                [(''month_number'', Num 5), (''order_date'', Str ''2025-07-04'')],
                [(''month_number'', Num 7), (''order_date'', Str ''2025-07-05'')]]\<rparr>"
  have h1: "\<forall>m\<in>set months. \<not> sublist m (upper ''meesho_sales.csv'')" by code_simp
  have h2: "has_column ?df ''month_number''" by code_simp
  have c: "column ?df ''month_number'' = [Num 7, Num 5, Str ''x'', Num 5, Num 7]" by code_simp
  have h3: "Num 5 \<in> set (column ?df ''month_number'')" unfolding c by simp
  have h4: "Num 5 = Num 5 \<or> (Num 5 \<noteq> Missing \<and> py_int (Num 5) = Inr 5)" by simp
  have h5: "\<forall>t. t \<noteq> Missing \<longrightarrow> t \<noteq> Num 5 \<longrightarrow>
           count_list (column ?df ''month_number'') t < count_list (column ?df ''month_number'') (Num 5)
           \<or> (count_list (column ?df ''month_number'') t = count_list (column ?df ''month_number'') (Num 5)
              \<and> py_less (Num 5) t)"
    unfolding c by auto
  from h1 c extract_month_meesho_mode_five [OF h1 h2 h3 h4 h5, of iso_month] show ?thesis by blast
qed

subsection \<open>C5: Flipkart, the amended period\<close>

text \<open>
  C5: for a Flipkart ledger whose file name contains no month code, with \<open>strs\<close> the
  non-missing values of the column \<^verbatim>\<open>Amended Period\<close> read as strings: when the column
  exists and the mode of \<open>strs\<close> is a month abbreviation, a hyphen and a four-digit
  year, the result is the number of that month with its upper-case code; when the
  column is absent, or holds no value, or the mode is not of that form, the result is
  absent in both fields. The mode \<open>s\<close> is stated on the values: it occurs in \<open>strs\<close>,
  and every other string occurs less often, or as often and is then greater than \<open>s\<close>.
\<close>

theorem extract_month_flipkart_amended_period:
  assumes "\<forall>m\<in>set months. \<not> sublist m (upper file_name)"
    and "strs = map astype_str (filter (\<lambda>c. c \<noteq> Missing) (column df ''Amended Period''))"
  shows "(has_column df ''Amended Period''
          \<and> s \<in> set strs
          \<and> (\<forall>t. t \<noteq> s \<longrightarrow> count_list strs t < count_list strs s
                 \<or> (count_list strs t = count_list strs s \<and> s < t))
          \<and> month_year_format s j
          \<longrightarrow> extract_month to_datetime file_name df Flipkart = Inr (Some (int j + 1), Some (months ! j)))
       \<and> (\<not> has_column df ''Amended Period''
          \<or> strs = []
          \<or> (\<exists>s. s \<in> set strs
                \<and> (\<forall>t. t \<noteq> s \<longrightarrow> count_list strs t < count_list strs s
                       \<or> (count_list strs t = count_list strs s \<and> s < t))
                \<and> (\<forall>j. \<not> month_year_format s j))
          \<longrightarrow> extract_month to_datetime file_name df Flipkart = Inr (None, None))"
proof (intro conjI impI)
  have strs: "map astype_str (dropna (column df ''Amended Period'')) = strs"
    by (simp add: assms(2) dropna_filter)
  assume h: "has_column df ''Amended Period''
          \<and> s \<in> set strs
          \<and> (\<forall>t. t \<noteq> s \<longrightarrow> count_list strs t < count_list strs s
                 \<or> (count_list strs t = count_list strs s \<and> s < t))
          \<and> month_year_format s j"
  then have m: "iloc0 (sort (most_frequent strs)) = Inr s"
    by (intro iloc0_sort_mode) simp_all
  from h obtain a y where f: "s = a @ ''-'' @ y" "length a = 3" "j < 12" "upper a = months ! j"
    "length y = 4" "list_all is_digit y" "digits_value y \<noteq> 0"
    unfolding month_year_format_def by blast
  from strptime_bY_format [OF f(2-7)] f(1) have p: "strptime_bY s =
      Inr \<lparr>dt_year = int (digits_value y), dt_month = int j + 1, dt_day = 1\<rparr>"
    by simp
  have "strftime_b \<lparr>dt_year = int (digits_value y), dt_month = int j + 1, dt_day = 1\<rparr>
      = Inr (month_abbr ! j)"
    using f(3) by (simp add: strftime_b_def list_index_def length_month_abbr)
  with m p f(3) have "flipkart_amended_period df = Inr (Some (int j + 1), Some (months ! j))"
    by (simp add: flipkart_amended_period_def strs upper_month_abbr_nth)
  with h have "platform_fallback df Flipkart = Return (Some (int j + 1), Some (months ! j))"
    by (simp add: platform_fallback_def)
  with no_code_scan [OF assms(1)]
  show "extract_month to_datetime file_name df Flipkart = Inr (Some (int j + 1), Some (months ! j))"
    by (simp add: extract_month_def)
next
  have strs: "map astype_str (dropna (column df ''Amended Period'')) = strs"
    by (simp add: assms(2) dropna_filter)
  assume h: "\<not> has_column df ''Amended Period''
          \<or> strs = []
          \<or> (\<exists>s. s \<in> set strs
                \<and> (\<forall>t. t \<noteq> s \<longrightarrow> count_list strs t < count_list strs s
                       \<or> (count_list strs t = count_list strs s \<and> s < t))
                \<and> (\<forall>j. \<not> month_year_format s j))"
  have "\<exists>e. flipkart_amended_period df = Inl e" if col: "has_column df ''Amended Period''"
  proof -
    from h col consider "strs = []"
      | s where "s \<in> set strs"
          "\<forall>t. t \<noteq> s \<longrightarrow> count_list strs t < count_list strs s
                 \<or> (count_list strs t = count_list strs s \<and> s < t)"
          "\<forall>j. \<not> month_year_format s j"
      by blast
    then show ?thesis
    proof cases
      case 1
      then have "iloc0 (sort (most_frequent strs)) = Inl IndexError"
        by (simp add: most_frequent_def iloc0_def)
      then show ?thesis by (simp add: flipkart_amended_period_def strs)
    next
      case 2
      from 2(1,2) have "iloc0 (sort (most_frequent strs)) = Inr s"
        by (rule iloc0_sort_mode)
      moreover from no_format_fails [OF 2(3)] obtain e where "strptime_bY s = Inl e" ..
      ultimately show ?thesis by (simp add: flipkart_amended_period_def strs)
    qed
  qed
  then have "platform_fallback df Flipkart = Date_column None"
    by (auto simp: platform_fallback_def)
  with no_code_scan [OF assms(1)]
  show "extract_month to_datetime file_name df Flipkart = Inr (None, None)"
    by (simp add: extract_month_def)
qed

theorem extract_month_flipkart_amended_period_witness:
  "\<not> (\<exists>m\<in>set months. sublist m (upper ''flipkart.csv''))
   \<and> extract_month iso_month ''flipkart.csv''
        \<lparr>columns = [''Amended Period''],
         rows = [[(''Amended Period'', Str ''May-2025'')],
                 [(''Amended Period'', Str ''Apr-2025'')],
                 [(''Amended Period'', Missing)],
                 [(''Amended Period'', Str ''Apr-2025'')],
                 [(''Amended Period'', Str ''May-2025'')]]\<rparr> Flipkart
      = Inr (Some 4, Some ''APR'')
   \<and> extract_month iso_month ''flipkart.csv''
        \<lparr>columns = [''Amended Period''], rows = [[(''Amended Period'', Str ''2025-04'')]]\<rparr> Flipkart
      = Inr (None, None)
   \<and> extract_month iso_month ''flipkart.csv''
        \<lparr>columns = [''Order Date''], rows = [[(''Order Date'', Str ''2025-04-01'')]]\<rparr> Flipkart
      = Inr (None, None)"
proof -
  let ?a = "\<lparr>columns = [''Amended Period''],
         rows = [[(''Amended Period'', Str ''May-2025'')],
                 [(''Amended Period'', Str ''Apr-2025'')],
                 [(''Amended Period'', Missing)],
                 [(''Amended Period'', Str ''Apr-2025'')],
                 [(''Amended Period'', Str ''May-2025'')]]\<rparr>"
  let ?b = "\<lparr>columns = [''Amended Period''], rows = [[(''Amended Period'', Str ''2025-04'')]]\<rparr>"
  let ?c = "\<lparr>columns = [''Order Date''], rows = [[(''Order Date'', Str ''2025-04-01'')]]\<rparr>"
  have n: "\<forall>m\<in>set months. \<not> sublist m (upper ''flipkart.csv'')" by code_simp
  have a: "has_column ?a ''Amended Period''" by code_simp
  have sa: "map astype_str (filter (\<lambda>c. c \<noteq> Missing) (column ?a ''Amended Period''))
      = [''May-2025'', ''Apr-2025'', ''Apr-2025'', ''May-2025'']" by code_simp
  have lt: "''Apr-2025'' < ''May-2025''" by code_simp
  have ma: "\<forall>t. t \<noteq> ''Apr-2025'' \<longrightarrow>
      count_list [''May-2025'', ''Apr-2025'', ''Apr-2025'', ''May-2025''] t
        < count_list [''May-2025'', ''Apr-2025'', ''Apr-2025'', ''May-2025''] ''Apr-2025''
      \<or> (count_list [''May-2025'', ''Apr-2025'', ''Apr-2025'', ''May-2025''] t
          = count_list [''May-2025'', ''Apr-2025'', ''Apr-2025'', ''May-2025''] ''Apr-2025''
         \<and> ''Apr-2025'' < t)"
    using lt by auto
  have "''Apr-2025'' = ''Apr'' @ ''-'' @ ''2025'' \<and> length ''Apr'' = 3 \<and> (3::nat) < 12
      \<and> upper ''Apr'' = months ! 3 \<and> length ''2025'' = 4 \<and> list_all is_digit ''2025''
      \<and> digits_value ''2025'' \<noteq> 0" by code_simp
  then have fa: "month_year_format ''Apr-2025'' 3"
    unfolding month_year_format_def by blast
  have m3: "months ! 3 = ''APR''" by code_simp
  from extract_month_flipkart_amended_period [OF n refl, of ?a "''Apr-2025''" 3 iso_month] a ma fa
  have 1: "extract_month iso_month ''flipkart.csv'' ?a Flipkart = Inr (Some 4, Some ''APR'')"
    unfolding sa by (simp add: m3)
  have sb: "map astype_str (filter (\<lambda>c. c \<noteq> Missing) (column ?b ''Amended Period''))
      = [''2025-04'']" by code_simp
  have "strptime_bY ''2025-04'' = Inl ValueError" by code_simp
  with month_year_format_parses [of "''2025-04''"] have fb: "\<forall>j. \<not> month_year_format ''2025-04'' j"
    by auto
  have mb: "\<forall>t. t \<noteq> ''2025-04'' \<longrightarrow>
      count_list [''2025-04''] t < count_list [''2025-04''] ''2025-04''
      \<or> (count_list [''2025-04''] t = count_list [''2025-04''] ''2025-04'' \<and> ''2025-04'' < t)"
    by auto
  from extract_month_flipkart_amended_period [OF n refl, of ?b _ _ iso_month] mb fb
  have 2: "extract_month iso_month ''flipkart.csv'' ?b Flipkart = Inr (None, None)"
    unfolding sb by auto
  have c: "\<not> has_column ?c ''Amended Period''" by code_simp
  from extract_month_flipkart_amended_period [OF n refl, of ?c _ _ iso_month] c
  have 3: "extract_month iso_month ''flipkart.csv'' ?c Flipkart = Inr (None, None)"
    by blast
  from n 1 2 3 show ?thesis by blast
qed

subsection \<open>C6: the totals\<close>

text \<open>
  C6, as stated, counts a cell that is not a number as 0. The sales column below holds
  the string \<^verbatim>\<open>abc\<close>: the sum raises, and no total is returned.
\<close>

theorem summarize_string_cell_counterexample:
  "has_column \<lparr>columns = [''Invoice Amount'', ''Total Tax Amount''],
       rows = [[(''Invoice Amount'', Num 100), (''Total Tax Amount'', Num 10)],
               [(''Invoice Amount'', Str ''abc''), (''Total Tax Amount'', Num 20)]]\<rparr> (total_col Amazon)
   \<and> has_column \<lparr>columns = [''Invoice Amount'', ''Total Tax Amount''],
       rows = [[(''Invoice Amount'', Num 100), (''Total Tax Amount'', Num 10)],
               [(''Invoice Amount'', Str ''abc''), (''Total Tax Amount'', Num 20)]]\<rparr> (tax_col Amazon)
   \<and> summarize stable_sort Amazon
        \<lparr>columns = [''Invoice Amount'', ''Total Tax Amount''],
         rows = [[(''Invoice Amount'', Num 100), (''Total Tax Amount'', Num 10)],
                 [(''Invoice Amount'', Str ''abc''), (''Total Tax Amount'', Num 20)]]\<rparr>
        None \<lparr>sales_summary = [], tax_summary = []\<rparr>
      = Inl TypeError"
  by code_simp

text \<open>
  C6, amended: for every ledger whose sales and tax columns are present and hold
  numbers and missing values only, \<open>summarize\<close> returns the sum of the sales column
  as \<open>total_sales\<close> and the sum of the tax column as \<open>total_tax\<close>, over all rows, a
  missing cell counting as 0. The witness is the ledger of the specification: sales
  100, 200 and a missing value, taxes 10, 20 and 30, with totals 300 and 60.
\<close>

theorem summarize_totals:
  assumes "has_column df (total_col p)" and "has_column df (tax_col p)"
    and "list_all (\<lambda>r. \<not> is_str (cell_at r (total_col p))) (rows df)"
    and "list_all (\<lambda>r. \<not> is_str (cell_at r (tax_col p))) (rows df)"
  shows "\<exists>s st'. summarize quicksort p df month_name st = Inr (s, st') \<and> present s
      \<and> total_sales s = Some (\<Sum>r\<leftarrow>rows df. value_or_zero (cell_at r (total_col p)))
      \<and> total_tax s = Some (\<Sum>r\<leftarrow>rows df. value_or_zero (cell_at r (tax_col p)))"
proof -
  have a: "series_sum (column df (total_col p))
      = Inr (\<Sum>r\<leftarrow>rows df. value_or_zero (cell_at r (total_col p)))"
    using assms(3) by (simp add: series_sum_Inr_iff column_def list_all_iff comp_def)
  have b: "series_sum (column df (tax_col p))
      = Inr (\<Sum>r\<leftarrow>rows df. value_or_zero (cell_at r (tax_col p)))"
    using assms(4) by (simp add: series_sum_Inr_iff column_def list_all_iff comp_def)
  have "list_all (\<lambda>c. \<not> is_str c) (map (\<lambda>r. cell_at r (total_col p)) (rows df))"
    using assms(3) by (simp add: list_all_iff)
  then have "\<exists>g. groupby_sum df (state_col p) (total_col p) = Inr g"
    by (simp add: groupby_sum_def group_sums_numeric)
  then have "\<exists>rb. state_sales quicksort p df = Inr rb"
    by (auto simp: state_sales_def)
  then obtain rb where "state_sales quicksort p df = Inr rb" ..
  with assms(1,2) a b show ?thesis
    by (simp add: summarize_def Let_def)
qed

theorem summarize_totals_witness:
  "has_column \<lparr>columns = [''total_invoice_value'', ''tax_amount''],
       rows = [[(''total_invoice_value'', Num 100), (''tax_amount'', Num 10)],
               [(''total_invoice_value'', Num 200), (''tax_amount'', Num 20)],
               [(''total_invoice_value'', Missing), (''tax_amount'', Num 30)]]\<rparr> (total_col Meesho)
   \<and> has_column \<lparr>columns = [''total_invoice_value'', ''tax_amount''],
       rows = [[(''total_invoice_value'', Num 100), (''tax_amount'', Num 10)],
               [(''total_invoice_value'', Num 200), (''tax_amount'', Num 20)],
               [(''total_invoice_value'', Missing), (''tax_amount'', Num 30)]]\<rparr> (tax_col Meesho)
   \<and> (\<exists>s st'. summarize stable_sort Meesho
        \<lparr>columns = [''total_invoice_value'', ''tax_amount''],
         rows = [[(''total_invoice_value'', Num 100), (''tax_amount'', Num 10)],
                 [(''total_invoice_value'', Num 200), (''tax_amount'', Num 20)],
                 [(''total_invoice_value'', Missing), (''tax_amount'', Num 30)]]\<rparr>
        (Some ''MAY'') \<lparr>sales_summary = [], tax_summary = []\<rparr> = Inr (s, st')
      \<and> present s \<and> total_sales s = Some 300 \<and> total_tax s = Some 60)"
proof -
  let ?df = "\<lparr>columns = [''total_invoice_value'', ''tax_amount''],
       rows = [[(''total_invoice_value'', Num 100), (''tax_amount'', Num 10)],
               [(''total_invoice_value'', Num 200), (''tax_amount'', Num 20)],
               [(''total_invoice_value'', Missing), (''tax_amount'', Num 30)]]\<rparr>"
  have h1: "has_column ?df (total_col Meesho)" by code_simp
  have h2: "has_column ?df (tax_col Meesho)" by code_simp
  have h3: "list_all (\<lambda>r. \<not> is_str (cell_at r (total_col Meesho))) (rows ?df)" by code_simp
  have h4: "list_all (\<lambda>r. \<not> is_str (cell_at r (tax_col Meesho))) (rows ?df)" by code_simp
  have s1: "(\<Sum>r\<leftarrow>rows ?df. value_or_zero (cell_at r (total_col Meesho))) = 300" by code_simp
  have s2: "(\<Sum>r\<leftarrow>rows ?df. value_or_zero (cell_at r (tax_col Meesho))) = 60" by code_simp
  from summarize_totals [OF h1 h2 h3 h4, of stable_sort "Some ''MAY''" "\<lparr>sales_summary = [], tax_summary = []\<rparr>"]
  have "\<exists>s st'. summarize stable_sort Meesho ?df (Some ''MAY'') \<lparr>sales_summary = [], tax_summary = []\<rparr>
      = Inr (s, st') \<and> present s \<and> total_sales s = Some 300 \<and> total_tax s = Some 60"
    unfolding s1 s2 .
  with h1 h2 show ?thesis by blast
qed

subsection \<open>C7: the breakdown by region\<close>




subsection \<open>C8: no exception leaves extract\_month\<close>

text \<open>
  C8: for every file name, ledger, platform and date parser, \<open>extract_month\<close> returns
  a month result and raises nothing: the result is a month number with a code, or
  it is absent in both fields.
\<close>

theorem extract_month_returns:
  "(\<exists>n l. extract_month to_datetime file_name df p = Inr (Some n, Some l))
   \<or> extract_month to_datetime file_name df p = Inr (None, None)"
proof (cases "scan_months (upper file_name) (enumerate_from 1 months)")
  case (Some im)
  then show ?thesis by (cases im) (simp add: extract_month_def)
next
  case None
  show ?thesis
  proof (cases "platform_fallback df p")
    case (Return r)
    with None platform_fallback_pair [OF Return] show ?thesis
      by (auto simp: extract_month_def)
  next
    case (Date_column dc)
    show ?thesis
    proof (cases dc)
      case None
      with \<open>scan_months (upper file_name) (enumerate_from 1 months) = None\<close> Date_column
      show ?thesis by (simp add: extract_month_def)
    next
      case (Some c)
      show ?thesis
      proof (cases "date_column_month to_datetime df c")
        case (Inl e)
        with \<open>scan_months (upper file_name) (enumerate_from 1 months) = None\<close> Date_column Some
        show ?thesis by (simp add: extract_month_def)
      next
        case (Inr r)
        with \<open>scan_months (upper file_name) (enumerate_from 1 months) = None\<close> Date_column Some
          date_column_month_pair [OF Inr]
        show ?thesis by (auto simp: extract_month_def)
      qed
    qed
  qed
qed

theorem extract_month_returns_witness:
  "(\<exists>n l. extract_month iso_month ''flipkart.csv''
      \<lparr>columns = [''Amended Period''], rows = [[(''Amended Period'', Str ''2025-04'')]]\<rparr> Flipkart
      = Inr (Some n, Some l))
   \<or> extract_month iso_month ''flipkart.csv''
      \<lparr>columns = [''Amended Period''], rows = [[(''Amended Period'', Str ''2025-04'')]]\<rparr> Flipkart
      = Inr (None, None)"
  by (rule extract_month_returns)

subsection \<open>C9: Meesho, a month number that is no integer\<close>

text \<open>
  C9, as stated, holds for every Meesho ledger whose \<^verbatim>\<open>month_number\<close> mode fails the
  conversion, whatever the file name. With a month code in the file name the scan of
  the file name returns first, and the result is not absent.
\<close>

theorem extract_month_meesho_filename_counterexample:
  "has_column \<lparr>columns = [''month_number''], rows = [[(''month_number'', Str ''x'')]]\<rparr> ''month_number''
   \<and> iloc0 (series_mode (dropna (column
        \<lparr>columns = [''month_number''], rows = [[(''month_number'', Str ''x'')]]\<rparr> ''month_number'')))
      = Inr (Str ''x'')
   \<and> py_int (Str ''x'') = Inl ValueError
   \<and> extract_month iso_month ''Sales_MAR_2024.csv''
        \<lparr>columns = [''month_number''], rows = [[(''month_number'', Str ''x'')]]\<rparr> Meesho
      = Inr (Some 3, Some ''MAR'')"
  by code_simp

text \<open>
  C9, amended: for a Meesho ledger whose file name contains no month code and that has
  a \<^verbatim>\<open>month_number\<close> column whose mode fails the conversion to an integer, the result
  is absent in both fields, also when the ledger has an \<^verbatim>\<open>order_date\<close> column with
  dates that parse.
\<close>

theorem extract_month_meesho_coercion_failure:
  assumes "\<forall>m\<in>set months. \<not> sublist m (upper file_name)"
    and "has_column df ''month_number''"
    and "iloc0 (series_mode (dropna (column df ''month_number''))) = Inr v"
    and "py_int v = Inl e"
  shows "extract_month to_datetime file_name df Meesho = Inr (None, None)"
proof -
  from assms(3,4) have "meesho_month_number df = Inl e"
    by (simp add: meesho_month_number_def)
  with assms(2) have "platform_fallback df Meesho = Return (None, None)"
    by (simp add: platform_fallback_def)
  with no_code_scan [OF assms(1)] show ?thesis
    by (simp add: extract_month_def)
qed

theorem extract_month_meesho_coercion_failure_witness:
  "\<not> (\<exists>m\<in>set months. sublist m (upper ''meesho_sales.csv''))
   \<and> has_column \<lparr>columns = [''month_number'', ''order_date''],
        rows = [[(''month_number'', Str ''May''), (''order_date'', Str ''2025-05-01'')]]\<rparr> ''month_number''
   \<and> has_column \<lparr>columns = [''month_number'', ''order_date''],
        rows = [[(''month_number'', Str ''May''), (''order_date'', Str ''2025-05-01'')]]\<rparr> ''order_date''
   \<and> iso_month (Str ''2025-05-01'') = Some May
   \<and> py_int (Str ''May'') = Inl ValueError
   \<and> extract_month iso_month ''meesho_sales.csv''
        \<lparr>columns = [''month_number'', ''order_date''],
         rows = [[(''month_number'', Str ''May''), (''order_date'', Str ''2025-05-01'')]]\<rparr> Meesho
      = Inr (None, None)"
proof -
  let ?df = "\<lparr>columns = [''month_number'', ''order_date''],
        rows = [[(''month_number'', Str ''May''), (''order_date'', Str ''2025-05-01'')]]\<rparr>"
  have h1: "\<forall>m\<in>set months. \<not> sublist m (upper ''meesho_sales.csv'')" by code_simp
  have h2: "has_column ?df ''month_number''" by code_simp
  have h2': "has_column ?df ''order_date''" by code_simp
  have h3: "iloc0 (series_mode (dropna (column ?df ''month_number''))) = Inr (Str ''May'')" by code_simp
  have h4: "py_int (Str ''May'') = Inl ValueError" by code_simp
  have h5: "iso_month (Str ''2025-05-01'') = Some May" by code_simp
  from h1 h2 h2' h4 h5 extract_month_meesho_coercion_failure [OF h1 h2 h3 h4, of iso_month]
  show ?thesis by blast
qed

subsection \<open>C10: summarising twice\<close>

lemma summarize_state_independent:
  "map_sum id fst (summarize quicksort p df month_name st1) = map_sum id fst (summarize quicksort p df month_name st2)"
  by (simp add: summarize_def Let_def split: sum.splits)

text \<open>
  C10: the loop body reads the ledger and appends to the two lists of the report. When
  it has returned a summary, running it again on the same platform, ledger and month,
  from the state the first run left, returns the same summary.
\<close>

theorem summarize_twice_same_summary:
  assumes "summarize quicksort p df month_name st = Inr (s, st')"
  shows "\<exists>st''. summarize quicksort p df month_name st' = Inr (s, st'')"
proof -
  have "map_sum id fst (summarize quicksort p df month_name st') = map_sum id fst (summarize quicksort p df month_name st)"
    by (rule summarize_state_independent)
  with assms have "map_sum id fst (summarize quicksort p df month_name st') = Inr s" by simp
  then show ?thesis by (cases "summarize quicksort p df month_name st'") auto
qed

theorem summarize_twice_same_summary_witness:
  "summarize stable_sort Meesho
      \<lparr>columns = [''total_invoice_value'', ''tax_amount'', ''end_customer_state_new''],
       rows = [[(''total_invoice_value'', Num 100), (''tax_amount'', Num 5),
                (''end_customer_state_new'', Str ''Goa'')],
               [(''total_invoice_value'', Num 200), (''tax_amount'', Num 10),
                (''end_customer_state_new'', Str ''Kerala'')]]\<rparr>
      (Some ''MAY'') \<lparr>sales_summary = [], tax_summary = []\<rparr>
    = Inr (\<lparr>ps_platform = Meesho, ps_month = ''MAY'', present = True,
            total_sales = Some 300, total_tax = Some 15,
            region_breakdown = [(Str ''Kerala'', 200), (Str ''Goa'', 100)]\<rparr>,
           \<lparr>sales_summary = [(Meesho, 300)], tax_summary = [(Meesho, 15)]\<rparr>)
   \<and> (\<exists>st''. summarize stable_sort Meesho
      \<lparr>columns = [''total_invoice_value'', ''tax_amount'', ''end_customer_state_new''],
       rows = [[(''total_invoice_value'', Num 100), (''tax_amount'', Num 5),
                (''end_customer_state_new'', Str ''Goa'')],
               [(''total_invoice_value'', Num 200), (''tax_amount'', Num 10),
                (''end_customer_state_new'', Str ''Kerala'')]]\<rparr>
      (Some ''MAY'') \<lparr>sales_summary = [(Meesho, 300)], tax_summary = [(Meesho, 15)]\<rparr>
    = Inr (\<lparr>ps_platform = Meesho, ps_month = ''MAY'', present = True,
            total_sales = Some 300, total_tax = Some 15,
            region_breakdown = [(Str ''Kerala'', 200), (Str ''Goa'', 100)]\<rparr>, st''))"
proof -
  have h: "summarize stable_sort Meesho
      \<lparr>columns = [''total_invoice_value'', ''tax_amount'', ''end_customer_state_new''],
       rows = [[(''total_invoice_value'', Num 100), (''tax_amount'', Num 5),
                (''end_customer_state_new'', Str ''Goa'')],
               [(''total_invoice_value'', Num 200), (''tax_amount'', Num 10),
                (''end_customer_state_new'', Str ''Kerala'')]]\<rparr>
      (Some ''MAY'') \<lparr>sales_summary = [], tax_summary = []\<rparr>
    = Inr (\<lparr>ps_platform = Meesho, ps_month = ''MAY'', present = True,
            total_sales = Some 300, total_tax = Some 15,
            region_breakdown = [(Str ''Kerala'', 200), (Str ''Goa'', 100)]\<rparr>,
           \<lparr>sales_summary = [(Meesho, 300)], tax_summary = [(Meesho, 15)]\<rparr>)"
    by code_simp
  from h summarize_twice_same_summary [OF h] show ?thesis by blast
qed

end
